theory Spec2Isabelle
  imports Complex_Main "HOL-Library.Multiset" "HOL-Library.Option_ord" "HOL-Library.Product_Lexorder"
begin

section \<open>Data model of database_manager.py\<close>

text \<open>
  A timestamp is a \<open>datetime\<close>: a number of microseconds on the time line. Every call of
  \<open>datetime.now()\<close> in the source is a parameter of the model, one parameter per call, so
  no theorem depends on two readings of the clock being equal.

  Python floats are read as exact rationals. Every interval the code computes
  (0.25, 0.5, 1, 2, 4, 12, 24, 36, 84, 168, 252 hours) is a binary fraction, so the
  products of \<open>_calculate_next_interval\<close> are exact in floating point as well.
\<close>

type_synonym timestamp = int

record FlashCard =
  card_id :: int
  word :: string
  meaning :: string
  example :: string
  tag :: string
  stage_id :: int
  correct :: "bool option"
  created_at :: "timestamp option"
  last_reviewed_at :: "timestamp option"
  next_review_time :: "timestamp option"
  review_count :: int
  correct_count :: int
  wrong_count :: int
  priority_score :: rat
  interval_hours :: rat

text \<open>The table \<open>flashcards\<close>: its rows, in rowid order.\<close>

type_synonym db = "FlashCard list"

datatype error = KeyError

text \<open>The CHECK constraint of the table: \<open>stage_id IN (1, 2, 3, 4)\<close>.\<close>

definition stage_check :: "FlashCard \<Rightarrow> bool" where
  "stage_check c = (stage_id c = 1 \<or> stage_id c = 2 \<or> stage_id c = 3 \<or> stage_id c = 4)"

section \<open>Point lookup and row update\<close>

text \<open>\<open>SELECT * FROM flashcards WHERE id = ?\<close> followed by \<open>fetchone()\<close>.\<close>

definition get_flashcard_by_id :: "db \<Rightarrow> int \<Rightarrow> FlashCard option" where
  "get_flashcard_by_id d flashcard_id = find (\<lambda>r. card_id r = flashcard_id) d"

text \<open>\<open>UPDATE flashcards SET ... WHERE id = ?\<close>: every row with that id is rewritten.\<close>

definition sql_update :: "int \<Rightarrow> (FlashCard \<Rightarrow> FlashCard) \<Rightarrow> db \<Rightarrow> db" where
  "sql_update flashcard_id f d = map (\<lambda>r. if card_id r = flashcard_id then f r else r) d"

section \<open>Interval policy\<close>

text \<open>\<open>base_intervals.get(flashcard.stage_id, 0.5)\<close>.\<close>

definition base_intervals :: "int \<Rightarrow> rat" where
  "base_intervals s =
     (if s = 1 then 1 / 2 else if s = 2 then 2 else if s = 3 then 24
      else if s = 4 then 168 else 1 / 2)"

definition calculate_next_interval :: "FlashCard \<Rightarrow> string \<Rightarrow> rat" where
  "calculate_next_interval flashcard result =
     (let base_interval = base_intervals (stage_id flashcard) in
      if result = ''True'' then
        (let multiplier = (if stage_id flashcard \<le> 2 then 2 else 3 / 2)
         in base_interval * multiplier)
      else if result = ''False'' then base_interval * (1 / 2)
      else if result = ''TIMEOUT'' then base_interval
      else if result = ''ESCAPE'' then base_interval
      else base_interval)"

section \<open>Priority score\<close>

text \<open>
  \<open>stage_priority[flashcard.stage_id]\<close> raises KeyError outside 1..4. The overdue time is
  \<open>(current_time - next_review).total_seconds() / 3600\<close>, here microseconds over
  3600000000. \<open>flashcard.correct == False\<close> holds for the stored value 0 only, not for NULL.
\<close>

definition stage_priority :: "int \<Rightarrow> error + rat" where
  "stage_priority s =
     (if s = 1 then Inr 100 else if s = 2 then Inr 80 else if s = 3 then Inr 60
      else if s = 4 then Inr 40 else Inl KeyError)"

definition overdue_bonus_of :: "timestamp option \<Rightarrow> timestamp \<Rightarrow> rat" where
  "overdue_bonus_of nrt current_time =
     (case nrt of
        None \<Rightarrow> 0
      | Some next_review \<Rightarrow>
          if next_review \<le> current_time then
            (let overdue_hours = of_int (current_time - next_review) / 3600000000
             in min (overdue_hours * 5) 50)
          else 0)"

definition calculate_priority_score :: "FlashCard \<Rightarrow> timestamp \<Rightarrow> error + rat" where
  "calculate_priority_score flashcard current_time =
     (case stage_priority (stage_id flashcard) of
        Inl e \<Rightarrow> Inl e
      | Inr base_score \<Rightarrow>
          (let overdue_bonus = overdue_bonus_of (next_review_time flashcard) current_time;
               wrong_penalty = (if correct flashcard = Some False then 30 else 0);
               creation_bonus = (if stage_id flashcard = 1 then 20 else 0)
           in Inr (base_score + overdue_bonus + wrong_penalty + creation_bonus)))"

text \<open>
  \<open>_update_priority_score\<close>: the store after the call, and the exception that escaped,
  if any. Nothing is written when the id is missing or the score raises.
\<close>

definition update_priority_score :: "db \<Rightarrow> int \<Rightarrow> timestamp \<Rightarrow> db \<times> error option" where
  "update_priority_score d flashcard_id current_time =
     (case get_flashcard_by_id d flashcard_id of
        None \<Rightarrow> (d, None)
      | Some flashcard \<Rightarrow>
          (case calculate_priority_score flashcard current_time of
             Inl e \<Rightarrow> (d, Some e)
           | Inr new_score \<Rightarrow>
               (sql_update flashcard_id (\<lambda>r. r\<lparr>priority_score := new_score\<rparr>) d, None)))"

section \<open>Review state machine\<close>

text \<open>
  \<open>timedelta(hours=h)\<close> in microseconds; the constructor rounds to the nearest
  microsecond, and all intervals of the code are whole numbers of microseconds.
\<close>

definition timedelta_hours :: "rat \<Rightarrow> int" where
  "timedelta_hours h = round (h * 3600000000)"

text \<open>
  \<open>update_flashcard_after_review\<close>. The clock is read as \<open>t_due\<close> for
  \<open>next_review\<close>, as \<open>t_rev\<close> for \<open>last_reviewed_at\<close> and as \<open>t_score\<close> inside
  \<open>_calculate_priority_score\<close>. The result is the store after the call and the
  exception that escaped, if any; the main UPDATE is committed before the score is
  recomputed.
\<close>

definition update_flashcard_after_review ::
  "db \<Rightarrow> int \<Rightarrow> string \<Rightarrow> timestamp \<Rightarrow> timestamp \<Rightarrow> timestamp \<Rightarrow> db \<times> error option" where
  "update_flashcard_after_review d flashcard_id result t_due t_rev t_score =
     (case get_flashcard_by_id d flashcard_id of
        None \<Rightarrow> (d, None)
      | Some flashcard \<Rightarrow>
          if result = ''TIMEOUT'' then
            update_priority_score
              (sql_update flashcard_id
                 (\<lambda>r. r\<lparr>last_reviewed_at := Some t_rev,
                        review_count := review_count flashcard + 1\<rparr>) d)
              flashcard_id t_score
          else if result = ''ESCAPE'' then
            update_priority_score
              (sql_update flashcard_id
                 (\<lambda>r. r\<lparr>last_reviewed_at := Some t_rev,
                        review_count := review_count flashcard + 1\<rparr>) d)
              flashcard_id t_score
          else
            (let new_interval = calculate_next_interval flashcard result;
                 next_review = t_due + timedelta_hours new_interval;
                 now = t_rev;
                 d1 =
                   (if result = ''True'' then
                      (let new_stage = min (stage_id flashcard + 1) 4 in
                       sql_update flashcard_id
                         (\<lambda>r. r\<lparr>stage_id := new_stage, correct := Some True,
                                last_reviewed_at := Some now,
                                next_review_time := Some next_review,
                                review_count := review_count flashcard + 1,
                                correct_count := correct_count flashcard + 1,
                                interval_hours := new_interval\<rparr>) d)
                    else if result = ''False'' then
                      sql_update flashcard_id
                        (\<lambda>r. r\<lparr>correct := Some False,
                               last_reviewed_at := Some now,
                               next_review_time := Some next_review,
                               review_count := review_count flashcard + 1,
                               wrong_count := wrong_count flashcard + 1,
                               interval_hours := new_interval\<rparr>) d
                    else d)
             in update_priority_score d1 flashcard_id t_score))"

section \<open>Due-set query\<close>

text \<open>
  \<open>next_review_time <= ?\<close> is false for NULL. \<open>LIMIT\<close> with a negative bound means
  no bound.
\<close>

definition is_due :: "FlashCard \<Rightarrow> timestamp \<Rightarrow> bool" where
  "is_due r now = (case next_review_time r of None \<Rightarrow> False | Some t \<Rightarrow> t \<le> now)"

definition sql_limit :: "int \<Rightarrow> 'a list \<Rightarrow> 'a list" where
  "sql_limit n xs = (if n < 0 then xs else take (nat n) xs)"

text \<open>
  \<open>_update_all_priority_scores\<close>: the rows are fetched, then each is scored and written
  back by id. \<open>clk i\<close> is the clock reading taken when the row with id \<open>i\<close> is
  scored. An exception leaves the loop before the commit, so nothing is written.
\<close>

fun score_rows :: "(int \<Rightarrow> timestamp) \<Rightarrow> FlashCard list \<Rightarrow> db \<Rightarrow> error + db" where
  "score_rows clk [] d = Inr d"
| "score_rows clk (flashcard # rows) d =
     (case calculate_priority_score flashcard (clk (card_id flashcard)) of
        Inl e \<Rightarrow> Inl e
      | Inr new_score \<Rightarrow>
          score_rows clk rows
            (sql_update (card_id flashcard) (\<lambda>r. r\<lparr>priority_score := new_score\<rparr>) d))"

definition update_all_priority_scores :: "db \<Rightarrow> (int \<Rightarrow> timestamp) \<Rightarrow> db \<times> error option" where
  "update_all_priority_scores d clk =
     (case score_rows clk d d of Inl e \<Rightarrow> (d, Some e) | Inr d' \<Rightarrow> (d', None))"

text \<open>
  \<open>ORDER BY priority_score DESC, stage_id ASC, next_review_time ASC\<close>: a stable sort on
  the key below, in the lexicographic order of triples (NULL sorts first, as \<open>None\<close>
  does).
\<close>

definition due_order_key :: "FlashCard \<Rightarrow> rat \<times> int \<times> timestamp option" where
  "due_order_key r = (- priority_score r, stage_id r, next_review_time r)"

definition get_due_flashcards ::
  "db \<Rightarrow> int \<Rightarrow> (int \<Rightarrow> timestamp) \<Rightarrow> timestamp \<Rightarrow> db \<times> (error + FlashCard list)" where
  "get_due_flashcards d limit clk now =
     (case update_all_priority_scores d clk of
        (d1, Some e) \<Rightarrow> (d1, Inl e)
      | (d1, None) \<Rightarrow>
          (d1, Inr (sql_limit limit (sort_key due_order_key (filter (\<lambda>r. is_due r now) d1)))))"

section \<open>Delay until the next scheduling check\<close>

text \<open>\<open>int(x)\<close> on a float truncates towards zero.\<close>

definition py_int :: "rat \<Rightarrow> int" where
  "py_int x = (if 0 \<le> x then \<lfloor>x\<rfloor> else \<lceil>x\<rceil>)"

text \<open>\<open>SELECT COUNT(*) FROM flashcards WHERE next_review_time <= ?\<close>.\<close>

definition due_count_at :: "db \<Rightarrow> timestamp \<Rightarrow> int" where
  "due_count_at d now = int (length (filter (\<lambda>r. is_due r now) d))"

text \<open>\<open>SELECT MIN(next_review_time) FROM flashcards WHERE next_review_time > ?\<close>.\<close>

fun sql_min :: "timestamp list \<Rightarrow> timestamp option" where
  "sql_min [] = None"
| "sql_min (t # ts) = (case sql_min ts of None \<Rightarrow> Some t | Some m \<Rightarrow> Some (min t m))"

definition upcoming_times :: "db \<Rightarrow> timestamp \<Rightarrow> timestamp list" where
  "upcoming_times d now =
     concat (map (\<lambda>r. case next_review_time r of
                        None \<Rightarrow> []
                      | Some t \<Rightarrow> if t > now then [t] else []) d)"

definition earliest_upcoming :: "db \<Rightarrow> timestamp \<Rightarrow> timestamp option" where
  "earliest_upcoming d now = sql_min (upcoming_times d now)"

text \<open>
  \<open>calculate_next_test_interval\<close>, with its three readings of the clock:
  \<open>now1\<close> in the count, \<open>now2\<close> in the MIN query, \<open>now3\<close> in the difference.
\<close>

definition calculate_next_test_interval :: "db \<Rightarrow> timestamp \<Rightarrow> timestamp \<Rightarrow> timestamp \<Rightarrow> int" where
  "calculate_next_test_interval d now1 now2 now3 =
     (let due_count = due_count_at d now1 in
      if due_count = 0 then
        (case earliest_upcoming d now2 of
           Some next_due \<Rightarrow>
             (let minutes_until_next = max 5 (py_int (of_int (next_due - now3) / 1000000 / 60))
              in min minutes_until_next 60)
         | None \<Rightarrow> 5)
      else if due_count \<le> 5 then 5
      else 3)"

section \<open>Distractor sampler\<close>











section \<open>Multiple-choice options of reviewer_module.py\<close>





section \<open>Successive reviews of one item\<close>

text \<open>
  Successive calls of \<open>update_flashcard_after_review\<close> on the same id, each with its
  result and its three clock readings. Every call starts from the store the previous
  one left.
\<close>

fun apply_results :: "db \<Rightarrow> int \<Rightarrow> (string \<times> timestamp \<times> timestamp \<times> timestamp) list \<Rightarrow> db" where
  "apply_results d i [] = d"
| "apply_results d i ((result, t_due, t_rev, t_score) # rest) =
     apply_results (fst (update_flashcard_after_review d i result t_due t_rev t_score)) i rest"

definition count_results :: "string \<Rightarrow> (string \<times> timestamp \<times> timestamp \<times> timestamp) list \<Rightarrow> int" where
  "count_results r steps = int (length (filter (\<lambda>s. fst s = r) steps))"

text \<open>The four result strings the review session records.\<close>

definition known_result :: "string \<Rightarrow> bool" where
  "known_result r = (r = ''True'' \<or> r = ''False'' \<or> r = ''TIMEOUT'' \<or> r = ''ESCAPE'')"

text \<open>
  The row that the main UPDATE of \<open>update_flashcard_after_review\<close> leaves for the row
  \<open>c\<close> it read; lemma \<open>get_after_review\<close> relates it to the function.
\<close>

definition row_after_review :: "FlashCard \<Rightarrow> string \<Rightarrow> timestamp \<Rightarrow> timestamp \<Rightarrow> FlashCard" where
  "row_after_review c result t_due t_rev =
     (if result = ''TIMEOUT'' \<or> result = ''ESCAPE'' then
        c\<lparr>last_reviewed_at := Some t_rev, review_count := review_count c + 1\<rparr>
      else if result = ''True'' then
        c\<lparr>stage_id := min (stage_id c + 1) 4, correct := Some True,
          last_reviewed_at := Some t_rev,
          next_review_time := Some (t_due + timedelta_hours (calculate_next_interval c result)),
          review_count := review_count c + 1, correct_count := correct_count c + 1,
          interval_hours := calculate_next_interval c result\<rparr>
      else if result = ''False'' then
        c\<lparr>correct := Some False, last_reviewed_at := Some t_rev,
          next_review_time := Some (t_due + timedelta_hours (calculate_next_interval c result)),
          review_count := review_count c + 1, wrong_count := wrong_count c + 1,
          interval_hours := calculate_next_interval c result\<rparr>
      else c)"

section \<open>Freshness of the cached scores\<close>

text \<open>
  Notions used to state what the scoring loop achieves: the cached score of a row is the
  one computed from the row at its clock reading; two rows agree except for the cached
  score; and how a row of the store stands, after the loop has run over \<open>rows\<close>, to
  the row it was before.
\<close>

definition fresh_score :: "(int \<Rightarrow> timestamp) \<Rightarrow> FlashCard \<Rightarrow> bool" where
  "fresh_score clk r = (calculate_priority_score r (clk (card_id r)) = Inr (priority_score r))"

definition same_but_score :: "FlashCard \<Rightarrow> FlashCard \<Rightarrow> bool" where
  "same_but_score r' r = (\<exists>p. r' = r\<lparr>priority_score := p\<rparr>)"

definition scored_rel :: "(int \<Rightarrow> timestamp) \<Rightarrow> FlashCard list \<Rightarrow> FlashCard \<Rightarrow> FlashCard \<Rightarrow> bool" where
  "scored_rel clk rows r' r =
     (same_but_score r' r
      \<and> (card_id r \<in> card_id ` set rows \<longrightarrow> fresh_score clk r')
      \<and> (card_id r \<notin> card_id ` set rows \<longrightarrow> r' = r))"

section \<open>Example stores\<close>

text \<open>A clock that stands still, and random draws that are all 0.\<close>

definition fixed_clock :: "timestamp \<Rightarrow> int \<Rightarrow> timestamp" where
  "fixed_clock t i = t"


text \<open>
  A card with the given id, word, meaning, stage, last answer and due time, reviewed
  three times so far: once correctly, once wrongly and once without an answer.
\<close>

definition mk_card :: "int \<Rightarrow> string \<Rightarrow> string \<Rightarrow> int \<Rightarrow> bool option \<Rightarrow> timestamp option \<Rightarrow> FlashCard" where
  "mk_card i w m s c t =
     \<lparr>card_id = i, word = w, meaning = m, example = [], tag = [],
      stage_id = s, correct = c, created_at = Some 0, last_reviewed_at = None,
      next_review_time = t, review_count = 3, correct_count = 1, wrong_count = 1,
      priority_score = 100, interval_hours = 1 / 2\<rparr>"

text \<open>One stage-2 card, last answered wrongly, due one hour after time 0.\<close>

definition demo_card :: FlashCard where
  "demo_card = mk_card 1 ''river'' ''a stream of water'' 2 (Some False) (Some 3600000000)"

text \<open>
  Two stage-2 cards: card 1 due at time 0 and last answered correctly, card 2 due half an
  hour later and last answered wrongly.
\<close>

definition two_cards :: db where
  "two_cards =
     [mk_card 1 ''river'' ''a stream of water'' 2 (Some True) (Some 0),
      mk_card 2 ''hill'' ''a small mountain'' 2 (Some False) (Some 1800000000)]"


text \<open>
  A clock that advances by 36 microseconds from the scoring of one row to the scoring
  of the next, the rows being scored in the order of their ids.
\<close>

definition ticking_clock :: "int \<Rightarrow> timestamp" where
  "ticking_clock i = 3600000000 + 36 * i"

text \<open>
  Two stage-2 cards, both last answered correctly, whose due times lie 18 microseconds
  apart: card 1 due at time 0, card 2 due 18 microseconds later.
\<close>

definition close_cards :: db where
  "close_cards =
     [mk_card 1 ''river'' ''a stream of water'' 2 (Some True) (Some 0),
      mk_card 2 ''hill'' ''a small mountain'' 2 (Some True) (Some 18)]"

text \<open>
  Two stage-2 cards: card 1 due at time 0 and last answered wrongly, card 2 due half an
  hour later and last answered correctly; and the due list for them an hour after time
  0 under the ticking clock.
\<close>

definition mixed_cards :: db where
  "mixed_cards =
     [mk_card 1 ''river'' ''a stream of water'' 2 (Some False) (Some 0),
      mk_card 2 ''hill'' ''a small mountain'' 2 (Some True) (Some 1800000000)]"

definition mixed_cards_due :: "FlashCard list" where
  "mixed_cards_due =
     [(mk_card 1 ''river'' ''a stream of water'' 2 (Some False) (Some 0))
        \<lparr>priority_score := 2300000001 / 20000000\<rparr>,
      (mk_card 2 ''hill'' ''a small mountain'' 2 (Some True) (Some 1800000000))
        \<lparr>priority_score := 825000001 / 10000000\<rparr>]"

section \<open>Lookup after an update\<close>

lemma get_sql_update:
  assumes "\<And>r. card_id (f r) = card_id r"
  shows "get_flashcard_by_id (sql_update i f d) j =
         (if j = i then map_option f (get_flashcard_by_id d j) else get_flashcard_by_id d j)"
  using assms by (induction d) (auto simp: get_flashcard_by_id_def sql_update_def)

lemma get_update_priority_score:
  assumes "get_flashcard_by_id d i = Some c"
  shows "\<exists>ps. get_flashcard_by_id (fst (update_priority_score d i t)) i
               = Some (c\<lparr>priority_score := ps\<rparr>)"
proof (cases "calculate_priority_score c t")
  case (Inl e)
  then have "fst (update_priority_score d i t) = d"
    using assms by (simp add: update_priority_score_def)
  moreover have "c = c\<lparr>priority_score := priority_score c\<rparr>" by simp
  ultimately show ?thesis using assms by metis
next
  case (Inr s)
  then have "get_flashcard_by_id (fst (update_priority_score d i t)) i
               = Some (c\<lparr>priority_score := s\<rparr>)"
    using assms by (simp add: update_priority_score_def get_sql_update)
  then show ?thesis by blast
qed

lemma update_as_score_update:
  assumes "get_flashcard_by_id d i = Some c"
  shows "\<exists>d1. update_flashcard_after_review d i result t_due t_rev t_score
               = update_priority_score d1 i t_score
             \<and> get_flashcard_by_id d1 i = Some (row_after_review c result t_due t_rev)"
proof -
  consider "result = ''TIMEOUT''" | "result \<noteq> ''TIMEOUT''" "result = ''ESCAPE''"
    | "result \<noteq> ''TIMEOUT''" "result \<noteq> ''ESCAPE''" "result = ''True''"
    | "result \<noteq> ''TIMEOUT''" "result \<noteq> ''ESCAPE''" "result \<noteq> ''True''" "result = ''False''"
    | "result \<noteq> ''TIMEOUT''" "result \<noteq> ''ESCAPE''" "result \<noteq> ''True''" "result \<noteq> ''False''"
    by blast
  then show ?thesis
  proof cases
    case 1
    show ?thesis
      apply (simp add: update_flashcard_after_review_def row_after_review_def assms 1)
      apply (intro exI conjI, rule refl)
      apply (simp add: get_sql_update assms)
      done
  next
    case 2
    show ?thesis
      apply (simp add: update_flashcard_after_review_def row_after_review_def assms 2)
      apply (intro exI conjI, rule refl)
      apply (simp add: get_sql_update assms)
      done
  next
    case 3
    show ?thesis
      apply (simp add: update_flashcard_after_review_def row_after_review_def assms 3 Let_def)
      apply (intro exI conjI, rule refl)
      apply (simp add: get_sql_update assms)
      done
  next
    case 4
    show ?thesis
      apply (simp add: update_flashcard_after_review_def row_after_review_def assms 4 Let_def)
      apply (intro exI conjI, rule refl)
      apply (simp add: get_sql_update assms)
      done
  next
    case 5
    show ?thesis
      apply (simp add: update_flashcard_after_review_def row_after_review_def assms 5 Let_def)
      apply (intro exI conjI, rule refl)
      apply (simp add: assms)
      done
  qed
qed

lemma get_after_review:
  assumes "get_flashcard_by_id d i = Some c"
  shows "\<exists>ps. get_flashcard_by_id (fst (update_flashcard_after_review d i result t_due t_rev t_score)) i
               = Some ((row_after_review c result t_due t_rev)\<lparr>priority_score := ps\<rparr>)"
  using update_as_score_update [OF assms] get_update_priority_score by metis

section \<open>Non-answers and unknown results\<close>

text \<open>
  Claim C1. For a flashcard present in the store, the results TIMEOUT and ESCAPE leave
  \<open>next_review_time\<close>, \<open>stage_id\<close>, \<open>correct\<close>, \<open>correct_count\<close>, \<open>wrong_count\<close> and
  \<open>interval_hours\<close> as they were and add exactly 1 to \<open>review_count\<close>; the row read
  back differs from the old one in \<open>last_reviewed_at\<close>, \<open>review_count\<close> and
  \<open>priority_score\<close> only.
\<close>

theorem timeout_escape_frame:
  assumes "get_flashcard_by_id d i = Some c"
    and "result = ''TIMEOUT'' \<or> result = ''ESCAPE''"
  shows "\<exists>c'. get_flashcard_by_id
               (fst (update_flashcard_after_review d i result t_due t_rev t_score)) i = Some c'
      \<and> next_review_time c' = next_review_time c
      \<and> stage_id c' = stage_id c
      \<and> correct c' = correct c
      \<and> correct_count c' = correct_count c
      \<and> wrong_count c' = wrong_count c
      \<and> interval_hours c' = interval_hours c
      \<and> review_count c' = review_count c + 1
      \<and> c' = c\<lparr>last_reviewed_at := last_reviewed_at c', review_count := review_count c + 1,
                priority_score := priority_score c'\<rparr>"
proof -
  have "row_after_review c result t_due t_rev
          = c\<lparr>last_reviewed_at := Some t_rev, review_count := review_count c + 1\<rparr>"
    using assms(2) by (simp add: row_after_review_def)
  with get_after_review [OF assms(1), of result t_due t_rev t_score]
  show ?thesis by auto
qed

theorem timeout_escape_frame_witness:
  "get_flashcard_by_id [demo_card] 1 = Some demo_card
   \<and> (''TIMEOUT'' = ''TIMEOUT'' \<or> ''TIMEOUT'' = ''ESCAPE'')
   \<and> (\<exists>c'. get_flashcard_by_id
              (fst (update_flashcard_after_review [demo_card] 1 ''TIMEOUT'' 10 11 12)) 1 = Some c'
          \<and> next_review_time c' = Some 3600000000 \<and> stage_id c' = 2 \<and> review_count c' = 4)"
proof -
  have g: "get_flashcard_by_id [demo_card] 1 = Some demo_card"
    by (simp add: get_flashcard_by_id_def demo_card_def mk_card_def)
  have v: "next_review_time demo_card = Some 3600000000" "stage_id demo_card = 2"
    "review_count demo_card = 3"
    by (simp_all add: demo_card_def mk_card_def)
  show ?thesis
    using g timeout_escape_frame [OF g, of "''TIMEOUT''" 10 11 12] by (auto simp: v)
qed

text \<open>
  Claim C10. For a flashcard present in the store and a result string other than
  True, False, TIMEOUT and ESCAPE, the update does what \<open>_update_priority_score\<close>
  alone does: \<open>stage_id\<close>, \<open>correct\<close>, the three counters, \<open>next_review_time\<close>,
  \<open>last_reviewed_at\<close> and \<open>interval_hours\<close> keep their values (\<open>review_count\<close> is not
  incremented), and the row changes in \<open>priority_score\<close> at most.
\<close>

theorem unknown_result_frame:
  assumes "get_flashcard_by_id d i = Some c"
    and "result \<noteq> ''True''" and "result \<noteq> ''False''"
    and "result \<noteq> ''TIMEOUT''" and "result \<noteq> ''ESCAPE''"
  shows "update_flashcard_after_review d i result t_due t_rev t_score
           = update_priority_score d i t_score
      \<and> (\<exists>c'. get_flashcard_by_id
                (fst (update_flashcard_after_review d i result t_due t_rev t_score)) i = Some c'
            \<and> c' = c\<lparr>priority_score := priority_score c'\<rparr>
            \<and> stage_id c' = stage_id c \<and> correct c' = correct c
            \<and> review_count c' = review_count c \<and> correct_count c' = correct_count c
            \<and> wrong_count c' = wrong_count c \<and> next_review_time c' = next_review_time c
            \<and> last_reviewed_at c' = last_reviewed_at c \<and> interval_hours c' = interval_hours c)"
proof -
  have eq: "update_flashcard_after_review d i result t_due t_rev t_score
           = update_priority_score d i t_score"
    using assms by (simp add: update_flashcard_after_review_def Let_def)
  from get_update_priority_score [OF assms(1)] obtain ps where
    "get_flashcard_by_id (fst (update_priority_score d i t_score)) i
       = Some (c\<lparr>priority_score := ps\<rparr>)"
    by blast
  then show ?thesis unfolding eq by simp
qed

theorem unknown_result_frame_witness:
  "get_flashcard_by_id [demo_card] 1 = Some demo_card
   \<and> ''SKIP'' \<noteq> ''True'' \<and> ''SKIP'' \<noteq> ''False'' \<and> ''SKIP'' \<noteq> ''TIMEOUT'' \<and> ''SKIP'' \<noteq> ''ESCAPE''
   \<and> update_flashcard_after_review [demo_card] 1 ''SKIP'' 10 11 12
       = update_priority_score [demo_card] 1 12
   \<and> (\<exists>c'. get_flashcard_by_id
              (fst (update_flashcard_after_review [demo_card] 1 ''SKIP'' 10 11 12)) 1 = Some c'
          \<and> review_count c' = 3 \<and> next_review_time c' = Some 3600000000)"
proof -
  have g: "get_flashcard_by_id [demo_card] 1 = Some demo_card"
    by (simp add: get_flashcard_by_id_def demo_card_def mk_card_def)
  have v: "review_count demo_card = 3" "next_review_time demo_card = Some 3600000000"
    by (simp_all add: demo_card_def mk_card_def)
  show ?thesis
    using g unknown_result_frame [OF g, of "''SKIP''" 10 11 12] by (auto simp: v)
qed

section \<open>Missing ids\<close>

text \<open>
  Claim C7 says that an update for an id that is not in the store fails with an error.
  On a store holding card 1 only, the update of id 2 returns and no exception escapes.
\<close>

theorem missing_id_counterexample:
  "snd (update_flashcard_after_review [demo_card] 2 ''True'' 10 11 12) = None"
  by (simp add: update_flashcard_after_review_def get_flashcard_by_id_def demo_card_def mk_card_def)

text \<open>
  Claim C7, as amended. For an id that is not in the store, and every result, the update
  returns normally, raising nothing, and leaves the store unchanged.
\<close>

theorem missing_id_noop:
  assumes "get_flashcard_by_id d i = None"
  shows "update_flashcard_after_review d i result t_due t_rev t_score = (d, None)"
  using assms by (simp add: update_flashcard_after_review_def)

theorem missing_id_noop_witness:
  "get_flashcard_by_id [demo_card] 2 = None
   \<and> update_flashcard_after_review [demo_card] 2 ''False'' 10 11 12 = ([demo_card], None)"
proof -
  have g: "get_flashcard_by_id [demo_card] 2 = None"
    by (simp add: get_flashcard_by_id_def demo_card_def mk_card_def)
  show ?thesis
    using g missing_id_noop [OF g, of "''False''" 10 11 12] by simp
qed

section \<open>Stages along a sequence of reviews\<close>

lemma stage_check_row_after_review:
  "stage_check c \<Longrightarrow> stage_check (row_after_review c result t_due t_rev)"
  by (auto simp: stage_check_def row_after_review_def)

lemma stage_check_apply_results:
  assumes "get_flashcard_by_id d i = Some c" and "stage_check c"
  shows "\<exists>c'. get_flashcard_by_id (apply_results d i steps) i = Some c' \<and> stage_check c'"
  using assms
proof (induction steps arbitrary: d c)
  case Nil
  then show ?case by simp
next
  case (Cons s steps)
  obtain result t_due t_rev t_score where s: "s = (result, t_due, t_rev, t_score)"
    by (cases s) auto
  from get_after_review [OF Cons.prems(1)] obtain ps where
    g: "get_flashcard_by_id (fst (update_flashcard_after_review d i result t_due t_rev t_score)) i
          = Some ((row_after_review c result t_due t_rev)\<lparr>priority_score := ps\<rparr>)"
    by blast
  have "stage_check ((row_after_review c result t_due t_rev)\<lparr>priority_score := ps\<rparr>)"
    using stage_check_row_after_review [OF Cons.prems(2)] by (simp add: stage_check_def)
  from Cons.IH [OF g this] show ?case by (simp add: s)
qed

text \<open>
  Claim C2. Start from a card whose stage is in 1..4 and apply any sequence of results.
  The stage is then still in 1..4, and the next update sets it to
  \<open>min (stage + 1) 4\<close> for the result True and leaves it alone for every other
  result; so each step keeps the stage in 1..4, never lowers it and raises it by at
  most 1.
\<close>

theorem stage_monotone:
  assumes "get_flashcard_by_id d i = Some c" and "stage_check c"
  shows "\<exists>c1 c2. get_flashcard_by_id (apply_results d i steps) i = Some c1
      \<and> stage_check c1
      \<and> get_flashcard_by_id
           (fst (update_flashcard_after_review (apply_results d i steps) i result t_due t_rev t_score)) i
          = Some c2
      \<and> stage_id c2 = (if result = ''True'' then min (stage_id c1 + 1) 4 else stage_id c1)
      \<and> stage_check c2
      \<and> stage_id c1 \<le> stage_id c2
      \<and> stage_id c2 \<le> stage_id c1 + 1"
proof -
  from stage_check_apply_results [OF assms] obtain c1 where
    c1: "get_flashcard_by_id (apply_results d i steps) i = Some c1" "stage_check c1"
    by blast
  from get_after_review [OF c1(1)] obtain ps where
    c2: "get_flashcard_by_id
           (fst (update_flashcard_after_review (apply_results d i steps) i result t_due t_rev t_score)) i
          = Some ((row_after_review c1 result t_due t_rev)\<lparr>priority_score := ps\<rparr>)"
    by blast
  have "stage_id (row_after_review c1 result t_due t_rev)
          = (if result = ''True'' then min (stage_id c1 + 1) 4 else stage_id c1)"
    by (simp add: row_after_review_def)
  moreover have "stage_check (row_after_review c1 result t_due t_rev)"
    using c1(2) by (rule stage_check_row_after_review)
  ultimately show ?thesis
    using c1 c2 by (auto simp: stage_check_def)
qed

theorem stage_monotone_witness:
  "get_flashcard_by_id [demo_card] 1 = Some demo_card \<and> stage_check demo_card
   \<and> (\<exists>c1 c2. get_flashcard_by_id
                  (apply_results [demo_card] 1 [(''True'', 1, 2, 3), (''False'', 4, 5, 6)]) 1 = Some c1
        \<and> get_flashcard_by_id
            (fst (update_flashcard_after_review
                    (apply_results [demo_card] 1 [(''True'', 1, 2, 3), (''False'', 4, 5, 6)])
                    1 ''True'' 7 8 9)) 1 = Some c2
        \<and> stage_id c2 = min (stage_id c1 + 1) 4 \<and> stage_check c2)"
proof -
  have g: "get_flashcard_by_id [demo_card] 1 = Some demo_card"
    by (simp add: get_flashcard_by_id_def demo_card_def mk_card_def)
  have h: "stage_check demo_card"
    by (simp add: stage_check_def demo_card_def mk_card_def)
  show ?thesis
    using g h stage_monotone [OF g h, of "[(''True'', 1, 2, 3), (''False'', 4, 5, 6)]" "''True''" 7 8 9]
    by auto
qed

section \<open>Counters along a sequence of reviews\<close>

lemma counters_apply_results:
  assumes "get_flashcard_by_id d i = Some c" and "list_all (\<lambda>s. known_result (fst s)) steps"
  shows "\<exists>c'. get_flashcard_by_id (apply_results d i steps) i = Some c'
      \<and> review_count c' = review_count c + int (length steps)
      \<and> correct_count c' = correct_count c + count_results ''True'' steps
      \<and> wrong_count c' = wrong_count c + count_results ''False'' steps"
  using assms
proof (induction steps arbitrary: d c)
  case Nil
  then show ?case by (simp add: count_results_def)
next
  case (Cons s steps)
  obtain result t_due t_rev t_score where s: "s = (result, t_due, t_rev, t_score)"
    by (cases s) auto
  let ?c1 = "row_after_review c result t_due t_rev"
  from get_after_review [OF Cons.prems(1)] obtain ps where
    g: "get_flashcard_by_id (fst (update_flashcard_after_review d i result t_due t_rev t_score)) i
          = Some (?c1\<lparr>priority_score := ps\<rparr>)"
    by blast
  have k: "known_result result" and rest: "list_all (\<lambda>s. known_result (fst s)) steps"
    using Cons.prems(2) by (simp_all add: s)
  have rc: "review_count ?c1 = review_count c + 1"
    using k by (auto simp: known_result_def row_after_review_def)
  have cc: "correct_count ?c1 = correct_count c + (if result = ''True'' then 1 else 0)"
    by (simp add: row_after_review_def)
  have wc: "wrong_count ?c1 = wrong_count c + (if result = ''False'' then 1 else 0)"
    by (simp add: row_after_review_def)
  from Cons.IH [OF g rest] obtain c' where
    "get_flashcard_by_id
       (apply_results (fst (update_flashcard_after_review d i result t_due t_rev t_score)) i steps) i
       = Some c'"
    "review_count c' = review_count ?c1 + int (length steps)"
    "correct_count c' = correct_count ?c1 + count_results ''True'' steps"
    "wrong_count c' = wrong_count ?c1 + count_results ''False'' steps"
    by auto
  then show ?case
    using rc cc wc by (simp add: s count_results_def)
qed

lemma count_results_partition:
  "list_all (\<lambda>s. known_result (fst s)) steps \<Longrightarrow>
   int (length steps) = count_results ''True'' steps + count_results ''False'' steps
      + count_results ''TIMEOUT'' steps + count_results ''ESCAPE'' steps"
  by (induction steps) (auto simp: count_results_def known_result_def)

text \<open>
  Claim C6. After a sequence of N results drawn from True, False, TIMEOUT and ESCAPE,
  \<open>review_count\<close> is its initial value plus N, whatever the mix, and the excess of
  \<open>review_count\<close> over \<open>correct_count + wrong_count\<close> has grown by exactly the number
  of TIMEOUT and ESCAPE results. As this holds for every prefix, every single update
  keeps \<open>review_count = correct_count + wrong_count + non-answers\<close>.
\<close>

theorem counter_conservation:
  assumes "get_flashcard_by_id d i = Some c"
    and "list_all (\<lambda>s. known_result (fst s)) steps"
  shows "\<exists>c'. get_flashcard_by_id (apply_results d i steps) i = Some c'
      \<and> review_count c' = review_count c + int (length steps)
      \<and> review_count c' - (correct_count c' + wrong_count c')
          = review_count c - (correct_count c + wrong_count c)
            + (count_results ''TIMEOUT'' steps + count_results ''ESCAPE'' steps)"
  using counters_apply_results [OF assms] count_results_partition [OF assms(2)]
  by auto

theorem counter_conservation_witness:
  "get_flashcard_by_id [demo_card] 1 = Some demo_card
   \<and> list_all (\<lambda>s. known_result (fst s)) [(''True'', 1, 2, 3), (''TIMEOUT'', 4, 5, 6), (''False'', 7, 8, 9)]
   \<and> (\<exists>c'. get_flashcard_by_id
              (apply_results [demo_card] 1 [(''True'', 1, 2, 3), (''TIMEOUT'', 4, 5, 6), (''False'', 7, 8, 9)]) 1
              = Some c'
          \<and> review_count c' = 6
          \<and> review_count c' - (correct_count c' + wrong_count c') = 2)"
proof -
  have g: "get_flashcard_by_id [demo_card] 1 = Some demo_card"
    by (simp add: get_flashcard_by_id_def demo_card_def mk_card_def)
  have k: "list_all (\<lambda>s. known_result (fst s))
             [(''True'', 1, 2, 3), (''TIMEOUT'', 4, 5, 6), (''False'', 7, 8, 9)]"
    by (simp add: known_result_def)
  have v: "review_count demo_card = 3" "correct_count demo_card = 1" "wrong_count demo_card = 1"
    by (simp_all add: demo_card_def mk_card_def)
  have n: "count_results ''TIMEOUT'' [(''True'', 1, 2, 3), (''TIMEOUT'', 4, 5, 6), (''False'', 7, 8, 9)] = 1"
     "count_results ''ESCAPE'' [(''True'', 1, 2, 3), (''TIMEOUT'', 4, 5, 6), (''False'', 7, 8, 9)] = 0"
    by (simp_all add: count_results_def)
  show ?thesis
    using g k counter_conservation [OF g k] by (simp add: v n)
qed

section \<open>The interval table and the score formula\<close>

text \<open>
  Claim C3. For a stage in 1..4 with base interval 0.5, 2, 24 or 168 hours, the interval
  is the base times 2 for True at stage 1 or 2, the base times 1.5 for True at stage 3
  or 4, the base times 0.5 for False, and the base itself for TIMEOUT and ESCAPE.
\<close>

theorem calculate_next_interval_table:
  assumes "stage_check c"
  shows "let base = (if stage_id c = 1 then 1 / 2 else if stage_id c = 2 then 2
                     else if stage_id c = 3 then 24 else (168::rat)) in
         calculate_next_interval c ''True'' = (if stage_id c \<le> 2 then base * 2 else base * (3 / 2))
       \<and> calculate_next_interval c ''False'' = base * (1 / 2)
       \<and> calculate_next_interval c ''TIMEOUT'' = base
       \<and> calculate_next_interval c ''ESCAPE'' = base"
  using assms
  by (auto simp: stage_check_def calculate_next_interval_def base_intervals_def Let_def)

theorem calculate_next_interval_table_witness:
  "stage_check demo_card
   \<and> calculate_next_interval demo_card ''True'' = 4
   \<and> calculate_next_interval demo_card ''False'' = 1
   \<and> calculate_next_interval demo_card ''TIMEOUT'' = 2
   \<and> calculate_next_interval demo_card ''ESCAPE'' = 2"
proof -
  have h: "stage_check demo_card"
    by (simp add: stage_check_def demo_card_def mk_card_def)
  have s: "stage_id demo_card = 2"
    by (simp add: demo_card_def mk_card_def)
  show ?thesis
    using h calculate_next_interval_table [OF h] by (simp add: s Let_def)
qed

text \<open>
  Claim C4. For a stage in 1..4 the score is the stage's base (100, 80, 60, 40) plus
  the overdue bonus \<open>min (5 * overdueHours) 50\<close>, where \<open>overdueHours\<close> is the time
  from the due time to now in hours, not below 0, and 0 without a due time, plus 30
  when the last answer was wrong, plus 20 at stage 1.
\<close>

theorem calculate_priority_score_formula:
  assumes "stage_check c"
  shows "calculate_priority_score c now =
     Inr ((if stage_id c = 1 then 100 else if stage_id c = 2 then 80
           else if stage_id c = 3 then 60 else 40)
        + min (5 * max 0 (case next_review_time c of None \<Rightarrow> 0
                          | Some t \<Rightarrow> of_int (now - t) / 3600000000)) 50
        + (if correct c = Some False then 30 else 0)
        + (if stage_id c = 1 then 20 else 0))"
  using assms
  by (auto simp: stage_check_def calculate_priority_score_def stage_priority_def
      overdue_bonus_of_def Let_def max_def min_def mult.commute split: option.splits)

theorem calculate_priority_score_formula_witness:
  "stage_check demo_card \<and> calculate_priority_score demo_card 7200000000 = Inr 115"
proof -
  have h: "stage_check demo_card"
    by (simp add: stage_check_def demo_card_def mk_card_def)
  show ?thesis
    using h calculate_priority_score_formula [OF h, of 7200000000]
    by (simp add: demo_card_def mk_card_def)
qed

section \<open>Order of the due list\<close>

lemma calculate_priority_score_ignores_cache:
  "calculate_priority_score (r\<lparr>priority_score := p\<rparr>) t = calculate_priority_score r t"
  by (simp add: calculate_priority_score_def Let_def split: sum.splits)

lemma same_but_score_refl: "same_but_score r r"
proof -
  have "r = r\<lparr>priority_score := priority_score r\<rparr>" by simp
  then show ?thesis unfolding same_but_score_def by blast
qed

lemma same_but_score_update: "same_but_score (r\<lparr>priority_score := p\<rparr>) r"
  unfolding same_but_score_def by blast

lemma same_but_score_trans:
  "same_but_score a b \<Longrightarrow> same_but_score b c \<Longrightarrow> same_but_score a c"
  unfolding same_but_score_def by auto

lemma same_but_score_calc:
  "same_but_score r' r \<Longrightarrow> calculate_priority_score r' t = calculate_priority_score r t"
  unfolding same_but_score_def by (auto simp: calculate_priority_score_ignores_cache)

lemma score_rows_rel:
  assumes "distinct (map card_id rows)"
    and "\<forall>row\<in>set rows. \<forall>r\<in>set d. card_id r = card_id row \<longrightarrow> same_but_score r row"
    and "score_rows clk rows d = Inr d'"
  shows "list_all2 (scored_rel clk rows) d' d"
  using assms
proof (induction rows arbitrary: d)
  case Nil
  then show ?case
    by (simp add: scored_rel_def same_but_score_refl list_all2_refl)
next
  case (Cons row rows)
  from Cons.prems(3) obtain s where
    s: "calculate_priority_score row (clk (card_id row)) = Inr s"
    by (cases "calculate_priority_score row (clk (card_id row))") auto
  let ?f = "\<lambda>r. if card_id r = card_id row then r\<lparr>priority_score := s\<rparr> else r"
  let ?d1 = "sql_update (card_id row) (\<lambda>r. r\<lparr>priority_score := s\<rparr>) d"
  have d1: "?d1 = map ?f d" by (simp add: sql_update_def)
  have run: "score_rows clk rows ?d1 = Inr d'"
    using Cons.prems(3) s by simp
  have dist: "distinct (map card_id rows)" and notin: "card_id row \<notin> card_id ` set rows"
    using Cons.prems(1) by auto
  have pre: "\<forall>row'\<in>set rows. \<forall>r\<in>set ?d1. card_id r = card_id row' \<longrightarrow> same_but_score r row'"
  proof (intro ballI impI)
    fix row' r
    assume row': "row' \<in> set rows" and r: "r \<in> set ?d1" and eq: "card_id r = card_id row'"
    from r obtain r0 where r0: "r0 \<in> set d" "r = ?f r0" unfolding d1 by auto
    have "card_id r0 = card_id row'" using r0(2) eq by (auto split: if_splits)
    then have "same_but_score r0 row'" using Cons.prems(2) row' r0(1) by auto
    moreover have "same_but_score r r0"
      using r0(2) by (auto simp: same_but_score_refl same_but_score_update)
    ultimately show "same_but_score r row'" by (rule same_but_score_trans [rotated])
  qed
  from Cons.IH [OF dist pre run]
  have "list_all2 (scored_rel clk rows) d' (map ?f d)" unfolding d1 .
  then have ih: "list_all2 (\<lambda>r' r. scored_rel clk rows r' (?f r)) d' d"
    by (simp add: list_all2_map2)
  have step: "scored_rel clk (row # rows) r' r"
    if "scored_rel clk rows r' (?f r)" and "r \<in> set d" for r' r
  proof (cases "card_id r = card_id row")
    case True
    then have f: "?f r = r\<lparr>priority_score := s\<rparr>" by simp
    have "card_id (?f r) \<notin> card_id ` set rows" using True notin by simp
    with that(1) have r': "r' = r\<lparr>priority_score := s\<rparr>" by (simp add: scored_rel_def f)
    have "same_but_score r row" using Cons.prems(2) that(2) True by auto
    then have "calculate_priority_score r (clk (card_id row)) = Inr s"
      using s by (simp add: same_but_score_calc)
    then have "fresh_score clk r'"
      using True by (simp add: r' fresh_score_def calculate_priority_score_ignores_cache)
    then show ?thesis
      using True by (simp add: scored_rel_def r' same_but_score_update)
  next
    case False
    then show ?thesis using that(1) by (auto simp: scored_rel_def)
  qed
  show ?case
    using ih by (rule list.rel_mono_strong) (simp add: step)
qed


lemma update_all_fresh:
  assumes "distinct (map card_id d)"
    and "update_all_priority_scores d clk = (d1, None)"
  shows "\<forall>x\<in>set d1. fresh_score clk x"
proof -
  from assms(2) have run: "score_rows clk d d = Inr d1"
    by (auto simp: update_all_priority_scores_def split: sum.splits)
  have inj: "inj_on card_id (set d)"
    using assms(1) by (simp add: distinct_map)
  have "\<forall>row\<in>set d. \<forall>r\<in>set d. card_id r = card_id row \<longrightarrow> same_but_score r row"
  proof (intro ballI impI)
    fix row r
    assume "row \<in> set d" and "r \<in> set d" and "card_id r = card_id row"
    with inj have "r = row" by (simp only: inj_on_def)
    then show "same_but_score r row" by (simp only: same_but_score_refl)
  qed
  from score_rows_rel [OF assms(1) this run]
  have rel: "list_all2 (scored_rel clk d) d1 d" .
  show ?thesis
  proof
    fix x assume "x \<in> set d1"
    then obtain k where k: "k < length d1" "x = d1 ! k"
      by (auto simp: in_set_conv_nth)
    from rel k have "scored_rel clk d x (d ! k)" "k < length d"
      by (auto simp: list_all2_conv_all_nth)
    then show "fresh_score clk x"
      by (auto simp: scored_rel_def)
  qed
qed

lemma overdue_bonus_mono:
  assumes "cb - tb \<le> ca - ta"
  shows "overdue_bonus_of (Some tb) cb \<le> overdue_bonus_of (Some ta) ca"
proof (cases "tb \<le> cb")
  case True
  then have a: "ta \<le> ca" using assms by simp
  define x :: rat where "x = of_int (cb - tb) / 3600000000 * 5"
  define y :: rat where "y = of_int (ca - ta) / 3600000000 * 5"
  have "(of_int (cb - tb) :: rat) \<le> of_int (ca - ta)"
    using assms by (simp only: of_int_le_iff)
  then have "x \<le> y"
    unfolding x_def y_def by (intro mult_right_mono divide_right_mono) simp_all
  then have "min x 50 \<le> min y 50" by (simp add: min_le_iff_disj)
  moreover have "overdue_bonus_of (Some tb) cb = min x 50"
    unfolding overdue_bonus_of_def x_def Let_def using True by (simp only: option.case if_True)
  moreover have "overdue_bonus_of (Some ta) ca = min y 50"
    unfolding overdue_bonus_of_def y_def Let_def using a by (simp only: option.case if_True)
  ultimately show ?thesis by simp
next
  case False
  have "0 \<le> overdue_bonus_of (Some ta) ca"
    by (simp add: overdue_bonus_of_def Let_def)
  then show ?thesis using False by (simp add: overdue_bonus_of_def)
qed

lemma due_result_props:
  assumes "distinct (map card_id d)"
    and "snd (get_due_flashcards d limit clk now) = Inr res"
  shows "sorted (map due_order_key res)"
    and "\<forall>x\<in>set res. fresh_score clk x \<and> is_due x now"
proof -
  obtain d1 where u: "update_all_priority_scores d clk = (d1, None)"
    and res: "res = sql_limit limit (sort_key due_order_key (filter (\<lambda>r. is_due r now) d1))"
    using assms(2)
    by (cases "update_all_priority_scores d clk")
       (auto simp: get_due_flashcards_def split: option.splits)
  let ?s = "sort_key due_order_key (filter (\<lambda>r. is_due r now) d1)"
  have "sorted (map due_order_key ?s)" by simp
  then have "sorted (take n (map due_order_key ?s))" for n
    by (rule sorted_wrt_take)
  then show "sorted (map due_order_key res)"
    by (simp add: res sql_limit_def take_map)
  have "set res \<subseteq> set ?s"
    by (auto simp: res sql_limit_def dest: in_set_takeD)
  then show "\<forall>x\<in>set res. fresh_score clk x \<and> is_due x now"
    using update_all_fresh [OF assms(1) u] by auto
qed

text \<open>
  Claim C5, as amended. Take two items of the due list with equal stage, the first due
  strictly earlier than the second. Suppose that the second was not last answered
  wrongly unless the first was too, and that the second was not scored later than the
  first by more than the gap between their due times (as when the clock stands still
  during the query). Then the first appears strictly earlier in the list. Row ids are
  distinct, being the primary key.
\<close>

theorem due_order_overdue_first:
  assumes "distinct (map card_id d)"
    and "snd (get_due_flashcards d limit clk now) = Inr res"
    and "i < length res" and "j < length res"
    and "stage_id (res ! i) = stage_id (res ! j)"
    and "correct (res ! j) = Some False \<longrightarrow> correct (res ! i) = Some False"
    and "next_review_time (res ! i) = Some ta"
    and "next_review_time (res ! j) = Some tb"
    and "ta < tb"
    and "clk (card_id (res ! j)) - clk (card_id (res ! i)) \<le> tb - ta"
  shows "i < j"
proof (rule ccontr)
  assume "\<not> i < j"
  moreover have "i \<noteq> j" using assms(7,8,9) by auto
  ultimately have ji: "j \<le> i" by simp
  let ?a = "res ! i" and ?b = "res ! j"
  note ta = assms(7) and tb = assms(8) and lt = assms(9)
  note props = due_result_props [OF assms(1,2)]
  have key: "due_order_key ?b \<le> due_order_key ?a"
    using sorted_nth_mono [OF props(1), of j i] ji assms(3) by simp
  have fa: "fresh_score clk ?a" and fb: "fresh_score clk ?b"
    using props(2) assms(3,4) by auto
  obtain base where base: "stage_priority (stage_id ?a) = Inr base"
    using fa
    by (cases "stage_priority (stage_id ?a)") (auto simp: fresh_score_def calculate_priority_score_def)
  have sa: "priority_score ?a = base + overdue_bonus_of (Some ta) (clk (card_id ?a))
      + (if correct ?a = Some False then 30 else 0) + (if stage_id ?a = 1 then 20 else 0)"
    using fa by (simp add: fresh_score_def calculate_priority_score_def base ta Let_def)
  have sb: "priority_score ?b = base + overdue_bonus_of (Some tb) (clk (card_id ?b))
      + (if correct ?b = Some False then 30 else 0) + (if stage_id ?a = 1 then 20 else 0)"
    using fb base assms(5)
    by (simp add: fresh_score_def calculate_priority_score_def tb Let_def)
  have pen: "(if correct ?b = Some False then 30 else 0)
               \<le> (if correct ?a = Some False then 30 else (0::rat))"
    using assms(6) by simp
  have "clk (card_id ?b) - tb \<le> clk (card_id ?a) - ta"
    using assms(10) by simp
  then have "overdue_bonus_of (Some tb) (clk (card_id ?b))
               \<le> overdue_bonus_of (Some ta) (clk (card_id ?a))"
    by (rule overdue_bonus_mono)
  with pen have "priority_score ?b \<le> priority_score ?a"
    unfolding sa sb by (intro add_mono) simp_all
  with key assms(5) have "tb \<le> ta"
    by (auto simp: due_order_key_def ta tb)
  with lt show False by simp
qed

lemma score_rows_two_cards:
  "update_all_priority_scores two_cards (fixed_clock 3600000000)
     = ([(mk_card 1 ''river'' ''a stream of water'' 2 (Some True) (Some 0))\<lparr>priority_score := 85\<rparr>,
         (mk_card 2 ''hill'' ''a small mountain'' 2 (Some False) (Some 1800000000))
           \<lparr>priority_score := 225 / 2\<rparr>], None)"
  by (simp add: update_all_priority_scores_def two_cards_def mk_card_def fixed_clock_def
      calculate_priority_score_def stage_priority_def overdue_bonus_of_def sql_update_def)

lemma score_rows_close_cards:
  "update_all_priority_scores close_cards ticking_clock
     = ([(mk_card 1 ''river'' ''a stream of water'' 2 (Some True) (Some 0))
           \<lparr>priority_score := 1700000001 / 20000000\<rparr>,
         (mk_card 2 ''hill'' ''a small mountain'' 2 (Some True) (Some 18))
           \<lparr>priority_score := 3400000003 / 40000000\<rparr>], None)"
  by (simp add: update_all_priority_scores_def close_cards_def mk_card_def ticking_clock_def
      calculate_priority_score_def stage_priority_def overdue_bonus_of_def sql_update_def)

text \<open>
  Claim C5 says that of two due items with equal stage the more overdue one never
  comes later. It fails in two ways. In the store \<open>two_cards\<close>, one hour after time 0
  on a clock that stands still, card 1 is overdue by an hour and card 2 by half an
  hour, both at stage 2; card 2 was last answered wrongly, scores 112.5 against 85,
  and comes first. In the store \<open>close_cards\<close> both cards are at stage 2 and were last
  answered correctly, and card 1 is due 18 microseconds before card 2; card 2 is
  scored 36 microseconds after card 1, so its overdue time is the longer one when it
  is measured, it scores higher, and it comes first.
\<close>

theorem due_order_counterexample:
  "snd (get_due_flashcards two_cards 5 (fixed_clock 3600000000) 3600000000)
     = Inr [(mk_card 2 ''hill'' ''a small mountain'' 2 (Some False) (Some 1800000000))
              \<lparr>priority_score := 225 / 2\<rparr>,
            (mk_card 1 ''river'' ''a stream of water'' 2 (Some True) (Some 0))
              \<lparr>priority_score := 85\<rparr>]
   \<and> snd (get_due_flashcards close_cards 5 ticking_clock 3600000100)
     = Inr [(mk_card 2 ''hill'' ''a small mountain'' 2 (Some True) (Some 18))
              \<lparr>priority_score := 3400000003 / 40000000\<rparr>,
            (mk_card 1 ''river'' ''a stream of water'' 2 (Some True) (Some 0))
              \<lparr>priority_score := 1700000001 / 20000000\<rparr>]"
  by (simp add: get_due_flashcards_def score_rows_two_cards score_rows_close_cards mk_card_def
      is_due_def due_order_key_def sql_limit_def)

lemma score_rows_mixed_cards:
  "update_all_priority_scores mixed_cards ticking_clock
     = ([(mk_card 1 ''river'' ''a stream of water'' 2 (Some False) (Some 0))
           \<lparr>priority_score := 2300000001 / 20000000\<rparr>,
         (mk_card 2 ''hill'' ''a small mountain'' 2 (Some True) (Some 1800000000))
           \<lparr>priority_score := 825000001 / 10000000\<rparr>], None)"
  by (simp add: update_all_priority_scores_def mixed_cards_def mk_card_def ticking_clock_def
      calculate_priority_score_def stage_priority_def overdue_bonus_of_def sql_update_def)

lemma due_mixed_cards:
  "snd (get_due_flashcards mixed_cards 5 ticking_clock 3600000100) = Inr mixed_cards_due"
  by (simp add: get_due_flashcards_def score_rows_mixed_cards mk_card_def is_due_def
      due_order_key_def sql_limit_def mixed_cards_due_def)

theorem due_order_overdue_first_witness:
  "distinct (map card_id mixed_cards)
   \<and> snd (get_due_flashcards mixed_cards 5 ticking_clock 3600000100) = Inr mixed_cards_due
   \<and> 0 < length mixed_cards_due \<and> 1 < length mixed_cards_due
   \<and> stage_id (mixed_cards_due ! 0) = stage_id (mixed_cards_due ! 1)
   \<and> correct (mixed_cards_due ! 0) = Some False
   \<and> next_review_time (mixed_cards_due ! 0) = Some 0
   \<and> next_review_time (mixed_cards_due ! 1) = Some 1800000000
   \<and> (0::int) < 1800000000
   \<and> ticking_clock (card_id (mixed_cards_due ! 1)) - ticking_clock (card_id (mixed_cards_due ! 0))
       \<le> 1800000000 - 0
   \<and> (0::nat) < 1"
proof -
  have h1: "distinct (map card_id mixed_cards)"
    by (simp add: mixed_cards_def mk_card_def)
  have h2: "snd (get_due_flashcards mixed_cards 5 ticking_clock 3600000100) = Inr mixed_cards_due"
    by (rule due_mixed_cards)
  have h3: "0 < length mixed_cards_due" and h4: "1 < length mixed_cards_due"
    by (simp_all add: mixed_cards_due_def)
  have h5: "stage_id (mixed_cards_due ! 0) = stage_id (mixed_cards_due ! 1)"
    by (simp add: mixed_cards_due_def mk_card_def)
  have c: "correct (mixed_cards_due ! 0) = Some False"
    by (simp add: mixed_cards_due_def mk_card_def)
  then have h6: "correct (mixed_cards_due ! 1) = Some False
                   \<longrightarrow> correct (mixed_cards_due ! 0) = Some False"
    by simp
  have h7: "next_review_time (mixed_cards_due ! 0) = Some 0"
    and h8: "next_review_time (mixed_cards_due ! 1) = Some 1800000000"
    by (simp_all add: mixed_cards_due_def mk_card_def)
  have h9: "(0::int) < 1800000000" by simp
  have h10: "ticking_clock (card_id (mixed_cards_due ! 1))
               - ticking_clock (card_id (mixed_cards_due ! 0)) \<le> 1800000000 - 0"
    by (simp add: mixed_cards_due_def mk_card_def ticking_clock_def)
  from due_order_overdue_first [OF h1 h2 h3 h4 h5 h6 h7 h8 h9 h10]
    h1 h2 h3 h4 h5 c h7 h8 h10
  show ?thesis by simp
qed

section \<open>The next-check delay\<close>

lemma sql_min_None: "sql_min ts = None \<longleftrightarrow> ts = []"
  by (induction ts) (auto split: option.splits)

lemma sql_min_Some:
  "sql_min ts = Some m \<Longrightarrow> m \<in> set ts \<and> (\<forall>t\<in>set ts. m \<le> t)"
proof (induction ts arbitrary: m)
  case Nil
  then show ?case by simp
next
  case (Cons t ts)
  show ?case
  proof (cases "sql_min ts")
    case None
    then have "ts = []" by (simp add: sql_min_None)
    with Cons.prems show ?thesis by simp
  next
    case (Some m')
    with Cons.IH have "m' \<in> set ts" "\<forall>u\<in>set ts. m' \<le> u" by auto
    moreover from Some Cons.prems have "m = min t m'" by simp
    ultimately show ?thesis by (auto simp: min_def)
  qed
qed

lemma set_upcoming_times:
  "set (upcoming_times d now) = {t. \<exists>r\<in>set d. next_review_time r = Some t \<and> now < t}"
  by (auto simp: upcoming_times_def split: option.splits if_splits)

lemma max_py_int_minutes:
  "max 5 (py_int (of_int k / 1000000 / 60)) = max 5 (k div 60000000)"
proof (cases "0 \<le> k")
  case True
  have "(of_int k / 1000000 / 60 :: rat) = of_int k / of_int 60000000" by simp
  then have "\<lfloor>of_int k / 1000000 / 60 :: rat\<rfloor> = k div 60000000"
    by (simp only: floor_divide_of_int_eq)
  moreover have "(0::rat) \<le> of_int k / 1000000 / 60" using True by simp
  ultimately show ?thesis by (simp add: py_int_def)
next
  case False
  then have neg: "(of_int k / 1000000 / 60 :: rat) < 0" by (simp add: divide_neg_pos)
  then have "\<lceil>of_int k / 1000000 / 60 :: rat\<rceil> \<le> 0" by (simp add: ceiling_le_zero)
  moreover have "k div 60000000 < 0" using False by (simp add: div_neg_pos_less0)
  ultimately show ?thesis using neg by (simp add: py_int_def)
qed

lemma next_test_interval_no_due:
  assumes "due_count_at d now1 = 0"
  shows "calculate_next_test_interval d now1 now2 now3 =
           (case earliest_upcoming d now2 of
              Some t \<Rightarrow> min (max 5 ((t - now3) div 60000000)) 60
            | None \<Rightarrow> 5)"
proof (cases "earliest_upcoming d now2")
  case None
  then show ?thesis
    using assms by (simp add: calculate_next_test_interval_def)
next
  case (Some t)
  have "calculate_next_test_interval d now1 now2 now3
          = min (max 5 (py_int (of_int (t - now3) / 1000000 / 60))) 60"
    unfolding calculate_next_test_interval_def Let_def assms Some by simp
  also have "\<dots> = min (max 5 ((t - now3) div 60000000)) 60"
    by (simp only: max_py_int_minutes)
  finally show ?thesis by (simp add: Some)
qed

lemma next_test_interval_due:
  assumes "due_count_at d now1 \<noteq> 0"
  shows "calculate_next_test_interval d now1 now2 now3 = (if due_count_at d now1 \<le> 5 then 5 else 3)"
  using assms by (simp add: calculate_next_test_interval_def Let_def)

lemma next_test_interval_range:
  "3 \<le> calculate_next_test_interval d now1 now2 now3
   \<and> calculate_next_test_interval d now1 now2 now3 \<le> 60"
proof (cases "due_count_at d now1 = 0")
  case True
  then show ?thesis
    by (simp add: next_test_interval_no_due le_max_iff_disj split: option.splits)
next
  case False
  then show ?thesis by (simp add: next_test_interval_due)
qed

text \<open>
  Claim C9. With nothing due and some due time in the future, the delay is the whole
  number of minutes from the third clock reading to the earliest future due time, not
  below 5 and not above 60. With nothing due and no future due time, as in the empty
  store, it is 5. With something due it is 5 for at most five due items and 3 for more,
  so more due items never give a longer delay. The delay is always positive.
\<close>

theorem next_test_interval_cases:
  "(due_count_at d now1 = 0 \<longrightarrow>
      (\<forall>r\<in>set d. \<forall>u. next_review_time r = Some u \<and> now2 < u \<longrightarrow>
         (\<exists>t. (\<exists>r'\<in>set d. next_review_time r' = Some t) \<and> now2 < t
            \<and> (\<forall>r'\<in>set d. \<forall>u'. next_review_time r' = Some u' \<and> now2 < u' \<longrightarrow> t \<le> u')
            \<and> calculate_next_test_interval d now1 now2 now3
                = min (max 5 ((t - now3) div 60000000)) 60
            \<and> 5 \<le> calculate_next_test_interval d now1 now2 now3
            \<and> calculate_next_test_interval d now1 now2 now3 \<le> 60)))
   \<and> (due_count_at d now1 = 0
        \<and> (\<forall>r\<in>set d. \<forall>u. next_review_time r = Some u \<longrightarrow> \<not> now2 < u) \<longrightarrow>
          calculate_next_test_interval d now1 now2 now3 = 5)
   \<and> calculate_next_test_interval [] now1 now2 now3 = 5
   \<and> (0 < due_count_at d now1 \<longrightarrow>
          calculate_next_test_interval d now1 now2 now3
            = (if due_count_at d now1 \<le> 5 then 5 else 3))
   \<and> (0 < due_count_at d now1 \<and> due_count_at d now1 \<le> due_count_at d' now1' \<longrightarrow>
          calculate_next_test_interval d' now1' now2' now3'
            \<le> calculate_next_test_interval d now1 now2 now3)
   \<and> 0 < calculate_next_test_interval d now1 now2 now3"
proof (intro conjI impI ballI allI)
  fix r u
  assume nd: "due_count_at d now1 = 0" and r: "r \<in> set d"
    and u: "next_review_time r = Some u \<and> now2 < u"
  then have "u \<in> set (upcoming_times d now2)"
    by (auto simp: set_upcoming_times)
  then have "upcoming_times d now2 \<noteq> []" by auto
  then obtain t where t: "earliest_upcoming d now2 = Some t"
    by (cases "earliest_upcoming d now2") (auto simp: earliest_upcoming_def sql_min_None)
  then have "t \<in> set (upcoming_times d now2)" "\<forall>x\<in>set (upcoming_times d now2). t \<le> x"
    using sql_min_Some [of "upcoming_times d now2" t] by (auto simp: earliest_upcoming_def)
  then have "(\<exists>r'\<in>set d. next_review_time r' = Some t) \<and> now2 < t"
    "\<forall>r'\<in>set d. \<forall>u'. next_review_time r' = Some u' \<and> now2 < u' \<longrightarrow> t \<le> u'"
    by (auto simp: set_upcoming_times)
  moreover have "calculate_next_test_interval d now1 now2 now3
                = min (max 5 ((t - now3) div 60000000)) 60"
    using nd t by (simp add: next_test_interval_no_due)
  ultimately show "\<exists>t. (\<exists>r'\<in>set d. next_review_time r' = Some t) \<and> now2 < t
            \<and> (\<forall>r'\<in>set d. \<forall>u'. next_review_time r' = Some u' \<and> now2 < u' \<longrightarrow> t \<le> u')
            \<and> calculate_next_test_interval d now1 now2 now3
                = min (max 5 ((t - now3) div 60000000)) 60
            \<and> 5 \<le> calculate_next_test_interval d now1 now2 now3
            \<and> calculate_next_test_interval d now1 now2 now3 \<le> 60"
    by auto
next
  assume a: "due_count_at d now1 = 0
        \<and> (\<forall>r\<in>set d. \<forall>u. next_review_time r = Some u \<longrightarrow> \<not> now2 < u)"
  then have "set (upcoming_times d now2) = {}"
    by (auto simp: set_upcoming_times)
  then have "earliest_upcoming d now2 = None"
    by (simp add: earliest_upcoming_def sql_min_None)
  with a show "calculate_next_test_interval d now1 now2 now3 = 5"
    by (simp add: next_test_interval_no_due)
next
  show "calculate_next_test_interval [] now1 now2 now3 = 5"
    by (simp add: calculate_next_test_interval_def due_count_at_def earliest_upcoming_def
        upcoming_times_def)
next
  assume "0 < due_count_at d now1"
  then show "calculate_next_test_interval d now1 now2 now3
            = (if due_count_at d now1 \<le> 5 then 5 else 3)"
    by (simp add: next_test_interval_due)
next
  assume a: "0 < due_count_at d now1 \<and> due_count_at d now1 \<le> due_count_at d' now1'"
  then have "due_count_at d now1 \<noteq> 0" "due_count_at d' now1' \<noteq> 0" by auto
  then show "calculate_next_test_interval d' now1' now2' now3'
            \<le> calculate_next_test_interval d now1 now2 now3"
    using a by (simp add: next_test_interval_due)
next
  show "0 < calculate_next_test_interval d now1 now2 now3"
    using next_test_interval_range [of d now1 now2 now3] by simp
qed


theorem next_test_interval_cases_witness:
  "due_count_at [demo_card] 0 = 0
   \<and> demo_card \<in> set [demo_card] \<and> next_review_time demo_card = Some 3600000000
   \<and> (0::int) < 3600000000
   \<and> calculate_next_test_interval [demo_card] 0 0 2880000000 = 12
   \<and> 0 < due_count_at two_cards 3600000000
   \<and> due_count_at two_cards 3600000000 \<le> due_count_at two_cards 3600000000
   \<and> calculate_next_test_interval two_cards 3600000000 0 0 = 5"
proof -
  have n: "due_count_at [demo_card] 0 = 0"
    by (simp add: due_count_at_def is_due_def demo_card_def mk_card_def)
  have t: "next_review_time demo_card = Some 3600000000"
    by (simp add: demo_card_def mk_card_def)
  have c: "due_count_at two_cards 3600000000 = 2"
    by (simp add: due_count_at_def is_due_def two_cards_def mk_card_def)
  have a: "calculate_next_test_interval [demo_card] 0 0 2880000000 = 12"
    using n t next_test_interval_cases [of "[demo_card]" 0 0 2880000000 two_cards 3600000000 0 0]
    by auto
  have b: "calculate_next_test_interval two_cards 3600000000 0 0 = 5"
    using c next_test_interval_cases [of two_cards 3600000000 0 0 two_cards 3600000000 0 0]
    by simp
  show ?thesis using n t c a b by simp
qed

section \<open>Distractors\<close>
















end
